theory Spec2Isabelle
  imports Main "HOL-Library.Sublist" "HOL-Library.Multiset"
begin

section \<open>Python string primitives used by the cookie rules\<close>

text \<open>
  Strings are lists of characters. \<open>str.lower\<close> is modelled on the ASCII letters, which
  is what host names and cookie domains consist of; every other character is left as it is.
\<close>

definition lower_char :: "char \<Rightarrow> char" where
  "lower_char c =
     (case map_of (zip ''ABCDEFGHIJKLMNOPQRSTUVWXYZ'' ''abcdefghijklmnopqrstuvwxyz'') c of
        None \<Rightarrow> c
      | Some l \<Rightarrow> l)"

definition lower :: "string \<Rightarrow> string" where
  "lower s = map lower_char s"

text \<open>\<open>s.lstrip(chars)\<close>: drop leading characters for as long as they occur in \<open>chars\<close>.\<close>

fun lstrip :: "string \<Rightarrow> string \<Rightarrow> string" where
  "lstrip chars [] = []"
| "lstrip chars (c # cs) = (if c \<in> set chars then lstrip chars cs else c # cs)"

text \<open>\<open>s.startswith(p)\<close> and \<open>s.endswith(p)\<close>, by comparing the slice of the right length.\<close>

definition startswith :: "string \<Rightarrow> string \<Rightarrow> bool" where
  "startswith s p = (take (length p) s = p)"

definition endswith :: "string \<Rightarrow> string \<Rightarrow> bool" where
  "endswith s p = (length p \<le> length s \<and> drop (length s - length p) s = p)"

section \<open>Cookie rules (main.py)\<close>

datatype error = AttributeError | WebDriverException | ValueError | TimeoutError | PlaywrightError | OSError

text \<open>
  \<open>_domain_match(cd, host)\<close>. \<open>cd\<close> is \<open>c.get("domain")\<close>: \<open>None\<close> when the key is
  missing or null. \<open>host\<close> is \<open>urlparse(...).hostname\<close>, which is \<open>None\<close> for a URL
  without a host; \<open>host.lower()\<close> then raises.
\<close>

definition domain_match :: "string option \<Rightarrow> string option \<Rightarrow> error + bool" where
  "domain_match cd host =
     (case cd of
        None \<Rightarrow> Inr False
      | Some d \<Rightarrow>
          if d = [] then Inr False
          else (let cd' = lower (lstrip ''.'' d) in
                case host of
                  None \<Rightarrow> Inl AttributeError
                | Some h \<Rightarrow>
                    (let host' = lower h in
                     Inr (host' = cd' \<or> endswith host' (''.'' @ cd')))))"

text \<open>\<open>_path_match(cp, req)\<close>; \<open>cp\<close> is \<open>None\<close> for a null path.\<close>

definition path_match :: "string option \<Rightarrow> string \<Rightarrow> bool" where
  "path_match cp req =
     (case cp of
        None \<Rightarrow> True
      | Some p \<Rightarrow>
          if p = [] then True
          else startswith req (if startswith p ''/'' then p else ''/'' @ p))"

text \<open>
  A cookie object of the cookie file. A field read with \<open>c.get\<close> is absent, null or a
  string; \<open>secure\<close> is the truth value of \<open>c.get("secure")\<close>.
\<close>

datatype jfield = Absent | Null | Text string

record cookie =
  name :: string
  val :: string
  domain :: jfield
  path :: jfield
  secure :: bool
  sameSite :: jfield

record target =
  scheme :: string
  hostname :: "string option"
  tpath :: string

text \<open>\<open>c.get(key)\<close> and \<open>c.get(key, default)\<close>.\<close>

fun get :: "jfield \<Rightarrow> string option" where
  "get Absent = None"
| "get Null = None"
| "get (Text s) = Some s"

fun get_default :: "jfield \<Rightarrow> string \<Rightarrow> string option" where
  "get_default Absent d = Some d"
| "get_default Null d = None"
| "get_default (Text s) d = Some s"

text \<open>\<open>req_path = p.path or "/"\<close>.\<close>

definition req_path :: "target \<Rightarrow> string" where
  "req_path p = (if tpath p = [] then ''/'' else tpath p)"

text \<open>
  The browser is outside the program. What the loop needs of it is whether
  \<open>driver.add_cookie(c)\<close> raises, which may depend on the cookies already in the jar; the
  driver is therefore a jar together with the browser's acceptance test.
\<close>

record driver =
  jar :: "cookie list"
  accepts :: "cookie list \<Rightarrow> cookie \<Rightarrow> bool"
  get_ok :: bool

text \<open>
  One iteration of the loop body of \<open>load_cookies_domain_safe\<close> on the state
  \<open>(driver, added, skipped)\<close>; an exception that leaves the loop is \<open>Inl\<close>.
\<close>

definition cookie_step ::
  "target \<Rightarrow> driver \<times> nat \<times> nat \<Rightarrow> cookie \<Rightarrow> error + (driver \<times> nat \<times> nat)" where
  "cookie_step p st c0 =
     (case st of (drv, added, skipped) \<Rightarrow>
        (let c = c0\<lparr>sameSite := Absent\<rparr> in
         case domain_match (get (domain c)) (hostname p) of
           Inl e \<Rightarrow> Inl e
         | Inr dm \<Rightarrow>
             if \<not> dm then Inr (drv, added, skipped + 1)
             else if \<not> path_match (get_default (path c) ''/'') (req_path p)
               then Inr (drv, added, skipped + 1)
             else if secure c \<and> scheme p \<noteq> ''https''
               then Inr (drv, added, skipped + 1)
             else if accepts drv (jar drv) c
               then Inr (drv\<lparr>jar := jar drv @ [c]\<rparr>, added + 1, skipped)
             else Inr (drv, added, skipped + 1)))"

fun cookie_loop ::
  "target \<Rightarrow> driver \<times> nat \<times> nat \<Rightarrow> cookie list \<Rightarrow> error + (driver \<times> nat \<times> nat)" where
  "cookie_loop p st [] = Inr st"
| "cookie_loop p st (c # cs) =
     (case cookie_step p st c of Inl e \<Rightarrow> Inl e | Inr st' \<Rightarrow> cookie_loop p st' cs)"

text \<open>
  \<open>load_cookies_domain_safe(driver, cookie_file, target_url)\<close>. The cookie file is
  \<open>None\<close> when it does not exist, else its parsed list. The function reports its two
  counters in the log line at its end: \<open>Reported added skipped\<close>. It reports nothing when
  there is no file (\<open>NoCookieFile\<close>) and when an exception leaves it (\<open>Raised\<close>).
\<close>

datatype report = NoCookieFile | Raised error | Reported nat nat

definition load_cookies_domain_safe :: "driver \<Rightarrow> cookie list option \<Rightarrow> target \<Rightarrow> report" where
  "load_cookies_domain_safe drv cookie_file p =
     (case cookie_file of
        None \<Rightarrow> NoCookieFile
      | Some cookies \<Rightarrow>
          if \<not> get_ok drv then Raised WebDriverException
          else (case cookie_loop p (drv, 0, 0) cookies of
                  Inl e \<Rightarrow> Raised e
                | Inr (drv', added, skipped) \<Rightarrow>
                    if \<not> get_ok drv' then Raised WebDriverException
                    else Reported added skipped))"

section \<open>Configuration helpers\<close>

text \<open>
  The process environment after \<open>load_dotenv\<close>. \<open>env(k, d)\<close> is \<open>os.getenv(k, d)\<close> and
  \<open>on(k)\<close> is \<open>env(k, "0") == "1"\<close>.
\<close>

type_synonym environ = "string \<rightharpoonup> string"

definition env :: "environ \<Rightarrow> string \<Rightarrow> string option \<Rightarrow> string option" where
  "env e k d = (case e k of None \<Rightarrow> d | Some v \<Rightarrow> Some v)"

definition on :: "environ \<Rightarrow> string \<Rightarrow> bool" where
  "on e k = (env e k (Some ''0'') = Some ''1'')"

text \<open>Truth value of a string-or-None, as in \<open>if env("X"):\<close>.\<close>

fun truthy :: "string option \<Rightarrow> bool" where
  "truthy None = False"
| "truthy (Some s) = (s \<noteq> [])"

section \<open>Fingerprint scripts\<close>

text \<open>
  The scripts are JavaScript run in the page. Each of them reads the function currently
  installed on a prototype and installs a wrapper around it, so the function installed on
  a surface is the native one under a stack of wrappers: \<open>Probe f\<close> sets the surface's
  flag in \<open>window.__fp_used\<close> and calls \<open>f\<close>; \<open>Patch f\<close> alters the output of \<open>f\<close>.
  The page state is \<open>window.__fp_used\<close> (\<open>None\<close> while undefined) and the three
  functions. The three constructors are taken to exist in the browser.
\<close>

datatype fn = Native | Probe fn | Patch fn

record usage =
  webgl :: bool
  canvas :: bool
  audio :: bool

record page =
  fp_used :: "usage option"
  getParameter :: fn
  toDataURL :: fn
  getChannelData :: fn

text \<open>\<open>inject_fp_detection(driver)\<close> of main.py.\<close>

definition inject_fp_detection :: "environ \<Rightarrow> page \<Rightarrow> page" where
  "inject_fp_detection e pg =
     (if \<not> on e ''FP_DETECT'' then pg
      else (case fp_used pg of
              Some u \<Rightarrow> pg
            | None \<Rightarrow>
                pg\<lparr>fp_used := Some \<lparr>webgl = False, canvas = False, audio = False\<rparr>,
                   getParameter := Probe (getParameter pg),
                   toDataURL := Probe (toDataURL pg),
                   getChannelData := Probe (getChannelData pg)\<rparr>))"

text \<open>\<open>used.get(key)\<close> on the dictionary read back from the page; \<open>{}\<close> is \<open>None\<close>.\<close>

definition used_get :: "usage option \<Rightarrow> (usage \<Rightarrow> bool) \<Rightarrow> bool" where
  "used_get used key = (case used of None \<Rightarrow> False | Some u \<Rightarrow> key u)"

text \<open>\<open>apply_fp_overrides(driver, used)\<close> of main.py: three scripts, each behind its test.\<close>

definition apply_fp_overrides :: "environ \<Rightarrow> usage option \<Rightarrow> page \<Rightarrow> page" where
  "apply_fp_overrides e used pg =
     (let pg1 = (if used_get used webgl \<and> on e ''FP_WEBGL''
                 then pg\<lparr>getParameter := Patch (getParameter pg)\<rparr> else pg);
          pg2 = (if used_get used canvas \<and> on e ''FP_CANVAS''
                 then pg1\<lparr>toDataURL := Patch (toDataURL pg1)\<rparr> else pg1);
          pg3 = (if used_get used audio \<and> on e ''FP_AUDIO''
                 then pg2\<lparr>getChannelData := Patch (getChannelData pg2)\<rparr> else pg2)
      in pg3)"

text \<open>
  What the page does between the two phases: it calls some of the three functions. A call
  runs the wrappers from the outside in; a probe wrapper sets its flag. (The WebGL patch
  answers two parameters itself and passes every other one on, so a probe under it still
  runs for those.)
\<close>

datatype surface = Webgl | Canvas | Audio

fun runs_probe :: "fn \<Rightarrow> bool" where
  "runs_probe Native = False"
| "runs_probe (Probe f) = True"
| "runs_probe (Patch f) = runs_probe f"

fun patched :: "fn \<Rightarrow> nat" where
  "patched Native = 0"
| "patched (Probe f) = patched f"
| "patched (Patch f) = Suc (patched f)"

fun touch :: "page \<Rightarrow> surface \<Rightarrow> page" where
  "touch pg Webgl =
     (case fp_used pg of
        Some u \<Rightarrow> if runs_probe (getParameter pg) then pg\<lparr>fp_used := Some (u\<lparr>webgl := True\<rparr>)\<rparr> else pg
      | None \<Rightarrow> pg)"
| "touch pg Canvas =
     (case fp_used pg of
        Some u \<Rightarrow> if runs_probe (toDataURL pg) then pg\<lparr>fp_used := Some (u\<lparr>canvas := True\<rparr>)\<rparr> else pg
      | None \<Rightarrow> pg)"
| "touch pg Audio =
     (case fp_used pg of
        Some u \<Rightarrow> if runs_probe (getChannelData pg) then pg\<lparr>fp_used := Some (u\<lparr>audio := True\<rparr>)\<rparr> else pg
      | None \<Rightarrow> pg)"

text \<open>
  The fingerprint part of \<open>browser_login\<close> (main.py): install the probes, let the page run
  for the observation window, read \<open>window.__fp_used || {}\<close>, apply the overrides.
\<close>

definition browser_login_fp :: "environ \<Rightarrow> surface list \<Rightarrow> page \<Rightarrow> usage option \<times> page" where
  "browser_login_fp e touched pg =
     (let pg1 = inject_fp_detection e pg;
          pg2 = foldl touch pg1 touched;
          used = fp_used pg2
      in (used, apply_fp_overrides e used pg2))"

definition fresh_page :: page where
  "fresh_page = \<lparr>fp_used = None, getParameter = Native, toDataURL = Native, getChannelData = Native\<rparr>"

text \<open>
  \<open>fingerprint_init_script()\<close> of uncompletedbest.py builds one script from segments,
  appended in this order. \<open>int(...)\<close> of the standard library is a parameter; it raises
  \<open>ValueError\<close> on a string that is no integer.
\<close>

datatype segment =
    RemoveWebdriver
  | HardwareConcurrency int
  | DeviceMemory int
  | PatchWebgl string string
  | PatchCanvas
  | PatchAudio
  | Detect

text \<open>An f-string prints a missing variable as \<open>None\<close>.\<close>

definition fstr :: "string option \<Rightarrow> string" where
  "fstr v = (case v of None \<Rightarrow> ''None'' | Some s \<Rightarrow> s)"

text \<open>\<open>if env(k): s.append(... int(env(k)) ...)\<close>.\<close>

definition int_segment ::
  "(string \<Rightarrow> int option) \<Rightarrow> environ \<Rightarrow> string \<Rightarrow> (int \<Rightarrow> segment) \<Rightarrow> segment list
     \<Rightarrow> error + segment list" where
  "int_segment int_of e k mk s =
     (case env e k None of
        None \<Rightarrow> Inr s
      | Some v \<Rightarrow>
          if v = [] then Inr s
          else (case int_of v of None \<Rightarrow> Inl ValueError | Some n \<Rightarrow> Inr (s @ [mk n])))"

definition fingerprint_init_script ::
  "(string \<Rightarrow> int option) \<Rightarrow> environ \<Rightarrow> error + segment list" where
  "fingerprint_init_script int_of e =
     (let s0 = (if on e ''REMOVE_NAVIGATOR_WEBDRIVER'' then [RemoveWebdriver] else []) in
      case int_segment int_of e ''FAKE_HARDWARE_CONCURRENCY'' HardwareConcurrency s0 of
        Inl err \<Rightarrow> Inl err
      | Inr s1 \<Rightarrow>
         (case int_segment int_of e ''FAKE_DEVICE_MEMORY'' DeviceMemory s1 of
            Inl err \<Rightarrow> Inl err
          | Inr s2 \<Rightarrow>
             (let s3 = (if on e ''FP_WEBGL''
                        then s2 @ [PatchWebgl (fstr (env e ''WEBGL_VENDOR'' None))
                                              (fstr (env e ''WEBGL_RENDERER'' None))]
                        else s2);
                  s4 = (if on e ''FP_CANVAS'' then s3 @ [PatchCanvas] else s3);
                  s5 = (if on e ''FP_AUDIO'' then s4 @ [PatchAudio] else s4);
                  s6 = (if on e ''FP_DETECT'' then s5 @ [Detect] else s5)
              in Inr s6)))"

text \<open>What a segment does to the page when the init script runs in it.\<close>

fun run_segment :: "page \<Rightarrow> segment \<Rightarrow> page" where
  "run_segment pg RemoveWebdriver = pg"
| "run_segment pg (HardwareConcurrency n) = pg"
| "run_segment pg (DeviceMemory n) = pg"
| "run_segment pg (PatchWebgl v r) = pg\<lparr>getParameter := Patch (getParameter pg)\<rparr>"
| "run_segment pg PatchCanvas = pg\<lparr>toDataURL := Patch (toDataURL pg)\<rparr>"
| "run_segment pg PatchAudio = pg\<lparr>getChannelData := Patch (getChannelData pg)\<rparr>"
| "run_segment pg Detect =
     pg\<lparr>fp_used := Some \<lparr>webgl = False, canvas = False, audio = False\<rparr>,
        getParameter := Probe (getParameter pg),
        toDataURL := Probe (toDataURL pg),
        getChannelData := Probe (getChannelData pg)\<rparr>"

definition run_init_script :: "segment list \<Rightarrow> page \<Rightarrow> page" where
  "run_init_script segs pg = foldl run_segment pg segs"

section \<open>Request diff (uncompletedbest.py)\<close>

text \<open>
  \<open>sha(s)\<close> is the first 12 characters of the SHA-256 hex digest. The digest and
  \<open>json.dumps(x, sort_keys=True)\<close> belong to the standard library and are parameters.
\<close>

definition sha :: "(string \<Rightarrow> string) \<Rightarrow> string \<Rightarrow> string" where
  "sha hexdigest s = take 12 (hexdigest s)"

text \<open>
  A Python dictionary keeps its items in insertion order; storing under a key that is
  present replaces the value where it stands.
\<close>

fun dict_set :: "('k \<times> 'v) list \<Rightarrow> 'k \<Rightarrow> 'v \<Rightarrow> ('k \<times> 'v) list" where
  "dict_set [] k v = [(k, v)]"
| "dict_set ((k', v') # d) k v =
     (if k' = k then (k', v) # d else (k', v') # dict_set d k v)"

text \<open>The comprehension \<open>{key(x): x for x in xs}\<close>.\<close>

definition dict_of :: "('r \<Rightarrow> 'k) \<Rightarrow> 'r list \<Rightarrow> ('k \<times> 'r) list" where
  "dict_of key xs = foldl (\<lambda>d x. dict_set d (key x) x) [] xs"

definition keys :: "('k \<times> 'v) list \<Rightarrow> 'k list" where
  "keys d = map fst d"

text \<open>
  \<open>d1.keys() - d2.keys()\<close> is a set, iterated in no specified order; the model lists it in
  the order of \<open>d1\<close>, and the theorems below speak of the set of the result only.
\<close>

definition keys_minus :: "('k \<times> 'v) list \<Rightarrow> ('k \<times> 'w) list \<Rightarrow> 'k list" where
  "keys_minus d1 d2 = filter (\<lambda>k. k \<notin> set (keys d2)) (keys d1)"

record 'r diff_result =
  added :: "'r list"
  removed :: "'r list"

definition diff_requests ::
  "(string \<Rightarrow> string) \<Rightarrow> ('r \<Rightarrow> string) \<Rightarrow> 'r list \<Rightarrow> 'r list \<Rightarrow> 'r diff_result" where
  "diff_requests hexdigest dumps a b =
     (let sa = dict_of (\<lambda>x. sha hexdigest (dumps x)) a;
          sb = dict_of (\<lambda>x. sha hexdigest (dumps x)) b
      in \<lparr>added = List.map_filter (map_of sb) (keys_minus sb sa),
          removed = List.map_filter (map_of sa) (keys_minus sa sb)\<rparr>)"


section \<open>One session (uncompletedbest.py, run_account)\<close>

text \<open>
  The calls of \<open>run_account\<close> that reach outside the program, in the order of the source.
  Whether a call raises is the environment's choice: \<open>raises a\<close> is the exception it
  raises, if any. \<open>CancelledError\<close> is a \<open>BaseException\<close>, which \<open>except Exception\<close> does
  not catch.
\<close>

datatype action =
    LoadSitePolicy | Mkdir | Launch | NewContext | AddInitScript | AlignAndCapture | NewPage
  | Goto | WaitForSelector | LogNavigationError
  | DumpRequests | StorageState | CtxClose | BrowserClose

datatype exn = Exn error | CancelledError

text \<open>Run calls in order up to the first that raises: the calls made, and the exception.\<close>

fun perform :: "(action \<Rightarrow> exn option) \<Rightarrow> action list \<Rightarrow> action list \<times> exn option" where
  "perform raises [] = ([], None)"
| "perform raises (a # as) =
     (case raises a of
        Some x \<Rightarrow> ([a], Some x)
      | None \<Rightarrow> (case perform raises as of (t, r) \<Rightarrow> (a # t, r)))"

text \<open>
  \<open>run_account\<close>: the calls made, and what the caller gets: the captured requests
  (\<open>Inr\<close>) or an exception (\<open>Inl\<close>). The \<open>finally\<close> block ends in \<open>return\<close>, which
  discards an exception of the \<open>try\<close> block that \<open>except\<close> did not catch; an exception
  raised inside the \<open>finally\<close> block itself leaves the function.
\<close>

definition run_account ::
  "(string \<Rightarrow> int option) \<Rightarrow> environ \<Rightarrow> (action \<Rightarrow> exn option) \<Rightarrow> 'r list
     \<Rightarrow> action list \<times> (exn + 'r list)" where
  "run_account int_of e raises captured =
     (case perform raises [LoadSitePolicy, Mkdir, Launch, NewContext] of
        (t0, Some x) \<Rightarrow> (t0, Inl x)
      | (t0, None) \<Rightarrow>
         (case fingerprint_init_script int_of e of
            Inl err \<Rightarrow> (t0, Inl (Exn err))
          | Inr script \<Rightarrow>
             (case perform raises [AddInitScript, AlignAndCapture, NewPage] of
                (t1, Some x) \<Rightarrow> (t0 @ t1, Inl x)
              | (t1, None) \<Rightarrow>
                 (let nav = (if truthy (env e ''WAIT_FOR_SELECTOR'' None)
                             then [Goto, WaitForSelector] else [Goto]);
                      t2 = (case perform raises nav of
                              (t, Some (Exn err)) \<Rightarrow> t @ [LogNavigationError]
                            | (t, Some CancelledError) \<Rightarrow> t
                            | (t, None) \<Rightarrow> t);
                      fin = [DumpRequests]
                            @ (if on e ''EXPORT_STORAGE'' then [StorageState] else [])
                            @ [CtxClose, BrowserClose]
                  in case perform raises fin of
                       (t3, Some x) \<Rightarrow> (t0 @ t1 @ t2 @ t3, Inl x)
                     | (t3, None) \<Rightarrow> (t0 @ t1 @ t2 @ t3, Inr captured)))))"

section \<open>The orchestrator (uncompletedbest.py, run_multiple_accounts)\<close>

text \<open>
  \<open>asyncio\<close> runs the coroutines \<open>sem_task(acc_id)\<close> one at a time and switches between
  them only where one awaits. A task is waiting for the semaphore, or inside
  \<open>async with semaphore\<close> with some number of awaits of \<open>run_account\<close> still ahead, or
  finished with what \<open>run_account\<close> returned or raised. The semaphore is its counter.
  \<open>gathered\<close> is the value of \<open>await asyncio.gather(*tasks)\<close> once there is one: the list
  of results in the order of the tasks when all have returned, or the first exception a
  task raised, at once.
\<close>

datatype 'r task = Waiting | Active nat | Finished "exn + 'r"

record 'r loop =
  sem :: nat
  tasks :: "'r task list"
  gathered :: "(exn + 'r list) option"

text \<open>What a session does, as far as the orchestrator sees: its awaits and its outcome.\<close>

type_synonym 'r session = "nat \<times> (exn + 'r)"

definition session ::
  "(string \<Rightarrow> int option) \<Rightarrow> environ \<Rightarrow> (action \<Rightarrow> exn option) \<Rightarrow> 'r list \<Rightarrow> 'r list session" where
  "session int_of e raises captured =
     (case run_account int_of e raises captured of (t, r) \<Rightarrow> (length t, r))"

fun returned :: "'r task \<Rightarrow> 'r option" where
  "returned Waiting = None"
| "returned (Active m) = None"
| "returned (Finished (Inl x)) = None"
| "returned (Finished (Inr r)) = Some r"

fun results :: "'r task list \<Rightarrow> 'r list option" where
  "results [] = Some []"
| "results (t # ts) =
     (case returned t of
        None \<Rightarrow> None
      | Some r \<Rightarrow> (case results ts of None \<Rightarrow> None | Some rs \<Rightarrow> Some (r # rs)))"

definition gather :: "'r task list \<Rightarrow> (exn + 'r) \<Rightarrow> (exn + 'r list) option" where
  "gather ts last_outcome =
     (case last_outcome of
        Inl x \<Rightarrow> Some (Inl x)
      | Inr r \<Rightarrow> (case results ts of None \<Rightarrow> None | Some rs \<Rightarrow> Some (Inr rs)))"

text \<open>
  The start of \<open>run_multiple_accounts(account_ids, concurrency)\<close>:
  \<open>asyncio.Semaphore(concurrency)\<close> raises \<open>ValueError\<close> for a negative value; then one
  task per account id is handed to \<open>gather\<close>, which returns \<open>[]\<close> for no task at all.
\<close>

definition start :: "int \<Rightarrow> 'r session list \<Rightarrow> error + 'r loop" where
  "start concurrency ss =
     (if concurrency < 0 then Inl ValueError
      else Inr \<lparr>sem = nat concurrency,
               tasks = map (\<lambda>_. Waiting) ss,
               gathered = (if ss = [] then Some (Inr []) else None)\<rparr>)"

text \<open>
  The next move of task \<open>i\<close>, if it can move: enter \<open>async with semaphore\<close> when the
  counter is positive; run from one await to the next; or finish, which leaves the
  \<open>async with\<close> block (on a return and on an exception alike) and releases the semaphore.
\<close>

definition step :: "'r session list \<Rightarrow> nat \<Rightarrow> 'r loop \<Rightarrow> 'r loop option" where
  "step ss i s =
     (if length (tasks s) \<le> i then None
      else (case tasks s ! i of
              Waiting \<Rightarrow>
                if sem s = 0 then None
                else Some (s\<lparr>sem := sem s - 1, tasks := (tasks s)[i := Active (fst (ss ! i))]\<rparr>)
            | Active m \<Rightarrow>
                (case m of
                   Suc m' \<Rightarrow> Some (s\<lparr>tasks := (tasks s)[i := Active m']\<rparr>)
                 | 0 \<Rightarrow>
                    (let ts = (tasks s)[i := Finished (snd (ss ! i))]
                     in Some (s\<lparr>sem := sem s + 1, tasks := ts,
                               gathered := (case gathered s of
                                              Some g \<Rightarrow> Some g
                                            | None \<Rightarrow> gather ts (snd (ss ! i)))\<rparr>)))
            | Finished r \<Rightarrow> None))"

text \<open>A run: the tasks that move, in order. \<open>None\<close> when a named task cannot move.\<close>

fun exec :: "'r session list \<Rightarrow> nat list \<Rightarrow> 'r loop \<Rightarrow> 'r loop option" where
  "exec ss [] s = Some s"
| "exec ss (i # sched) s = (case step ss i s of None \<Rightarrow> None | Some s' \<Rightarrow> exec ss sched s')"

definition run_multiple_accounts :: "'r session list \<Rightarrow> int \<Rightarrow> nat list \<Rightarrow> 'r loop option" where
  "run_multiple_accounts ss concurrency sched =
     (case start concurrency ss of Inl err \<Rightarrow> None | Inr s0 \<Rightarrow> exec ss sched s0)"

text \<open>The sessions inside the gated region, and the moves still ahead of all tasks.\<close>

fun is_active :: "'r task \<Rightarrow> bool" where
  "is_active (Active m) = True"
| "is_active t = False"

definition active :: "'r loop \<Rightarrow> nat" where
  "active s = length (filter is_active (tasks s))"

fun is_finished :: "'r task \<Rightarrow> bool" where
  "is_finished (Finished r) = True"
| "is_finished t = False"

section \<open>The specification's wording of the domain rule\<close>



section \<open>Facts about the string primitives\<close>

lemma startswith_iff: "startswith s p \<longleftrightarrow> (\<exists>t. s = p @ t)"
proof
  assume "startswith s p"
  then have "s = p @ drop (length p) s"
    unfolding startswith_def by (metis append_take_drop_id)
  then show "\<exists>t. s = p @ t" ..
next
  assume "\<exists>t. s = p @ t"
  then show "startswith s p" unfolding startswith_def by auto
qed



section \<open>Cookie rules: domain\<close>

lemma domain_match_examples:
  "domain_match (Some ''example.com'') (Some ''example.com'') = Inr True"
  "domain_match (Some ''example.com'') (Some ''www.example.com'') = Inr True"
  "domain_match (Some ''example.com'') (Some ''notexample.com'') = Inr False"
  "domain_match (Some ''.Example.COM'') (Some ''www.example.com'') = Inr True"
  by (simp_all add: domain_match_def lower_def lower_char_def endswith_def)

lemma domain_match_fails_closed:
  "domain_match None host = Inr False" "domain_match (Some []) host = Inr False"
  by (simp_all add: domain_match_def)




section \<open>Cookie rules: path\<close>

lemma path_match_iff:
  "path_match cp req \<longleftrightarrow>
     (case cp of
        None \<Rightarrow> True
      | Some p \<Rightarrow> p = [] \<or> (\<exists>t. req = (if \<exists>u. p = ''/'' @ u then p else ''/'' @ p) @ t))"
  by (auto simp add: path_match_def startswith_iff split: option.splits)

text \<open>
  C3: the code tests a plain string prefix. It accepts the request path \<open>/api/v2/x\<close> for
  the cookie path \<open>/api\<close>, and it accepts \<open>/apiextra\<close> as well, which the claim excludes.
\<close>

theorem path_match_apiextra:
  "path_match (Some ''/api'') ''/api/v2/x'' \<and> path_match (Some ''/api'') ''/apiextra''"
  by (simp add: path_match_def startswith_def)

section \<open>Cookie rules: the counters of load_cookies_domain_safe\<close>

lemma cookie_step_counts:
  "cookie_step p (drv, a, s) c = Inr (drv', a', s') \<Longrightarrow>
     a' + s' = Suc (a + s) \<and> get_ok drv' = get_ok drv"
  by (auto simp add: cookie_step_def Let_def split: sum.splits if_splits)

lemma cookie_loop_counts:
  "cookie_loop p (drv, a, s) cs = Inr (drv', a', s') \<Longrightarrow>
     a' + s' = a + s + length cs \<and> get_ok drv' = get_ok drv"
proof (induction cs arbitrary: drv a s)
  case Nil
  then show ?case by simp
next
  case (Cons c cs)
  from Cons.prems obtain st where st: "cookie_step p (drv, a, s) c = Inr st"
    and rest: "cookie_loop p st cs = Inr (drv', a', s')"
    by (auto split: sum.splits)
  obtain d1 a1 s1 where st_eq: "st = (d1, a1, s1)" by (metis prod_cases3)
  from cookie_step_counts st[unfolded st_eq]
  have "a1 + s1 = Suc (a + s)" "get_ok d1 = get_ok drv" by blast+
  moreover from Cons.IH rest[unfolded st_eq]
  have "a' + s' = a1 + s1 + length cs" "get_ok drv' = get_ok d1" by blast+
  ultimately show ?case by simp
qed

lemma cookie_step_total:
  "hostname p = Some h \<Longrightarrow> \<exists>st'. cookie_step p st c = Inr st'"
  by (cases st rule: prod_cases3)
     (simp add: cookie_step_def domain_match_def Let_def split: option.splits)

lemma cookie_loop_total:
  "hostname p = Some h \<Longrightarrow> \<exists>st'. cookie_loop p st cs = Inr st'"
proof (induction cs arbitrary: st)
  case Nil
  show ?case by (metis cookie_loop.simps(1))
next
  case (Cons c cs)
  from cookie_step_total[OF Cons.prems] obtain st1 where "cookie_step p st c = Inr st1" by blast
  moreover from Cons.IH[OF Cons.prems] obtain st2 where "cookie_loop p st1 cs = Inr st2" by blast
  ultimately have "cookie_loop p st (c # cs) = Inr st2" by simp
  then show ?case ..
qed

text \<open>
  C10: whenever \<open>load_cookies_domain_safe\<close> reports its counters for a cookie file of
  \<open>n\<close> records, \<open>added + skipped = n\<close>; and it does report them whenever the target has
  a host name and the browser's navigations succeed.
\<close>

theorem load_cookies_counts:
  "(\<forall>a s. load_cookies_domain_safe drv (Some cookies) p = Reported a s
           \<longrightarrow> a + s = length cookies)
   \<and> (get_ok drv \<and> hostname p \<noteq> None \<longrightarrow>
        (\<exists>a s. load_cookies_domain_safe drv (Some cookies) p = Reported a s))"
proof (intro conjI allI impI)
  fix a s
  assume "load_cookies_domain_safe drv (Some cookies) p = Reported a s"
  then obtain drv' where "cookie_loop p (drv, 0, 0) cookies = Inr (drv', a, s)"
    by (auto simp add: load_cookies_domain_safe_def split: if_splits sum.splits)
  from cookie_loop_counts[OF this] show "a + s = length cookies" by simp
next
  assume h: "get_ok drv \<and> hostname p \<noteq> None"
  then obtain hn where "hostname p = Some hn" by auto
  from cookie_loop_total[OF this]
  obtain st where st: "cookie_loop p (drv, 0, 0) cookies = Inr st" by blast
  obtain d a s where "st = (d, a, s)" by (metis prod_cases3)
  with st cookie_loop_counts[of p drv 0 0 cookies d a s] h
  show "\<exists>a s. load_cookies_domain_safe drv (Some cookies) p = Reported a s"
    by (simp add: load_cookies_domain_safe_def)
qed

theorem load_cookies_counts_witness:
  "load_cookies_domain_safe
     \<lparr>jar = [], accepts = (\<lambda>j c. val c \<noteq> []), get_ok = True\<rparr>
     (Some [\<lparr>name = ''sid'', val = ''1'', domain = Text ''.a.io'', path = Text ''/'',
              secure = True, sameSite = Text ''Lax''\<rparr>,
            \<lparr>name = ''t'', val = ''2'', domain = Text ''b.io'', path = Absent,
              secure = False, sameSite = Absent\<rparr>])
     \<lparr>scheme = ''https'', hostname = Some ''w.a.io'', tpath = ''/home''\<rparr>
   = Reported 1 1"
proof -
  let ?d = "\<lparr>jar = [], accepts = (\<lambda>j c. val c \<noteq> []), get_ok = True\<rparr>"
  let ?cs = "[\<lparr>name = ''sid'', val = ''1'', domain = Text ''.a.io'', path = Text ''/'',
              secure = True, sameSite = Text ''Lax''\<rparr>,
            \<lparr>name = ''t'', val = ''2'', domain = Text ''b.io'', path = Absent,
              secure = False, sameSite = Absent\<rparr>]"
  let ?p = "\<lparr>scheme = ''https'', hostname = Some ''w.a.io'', tpath = ''/home''\<rparr>"
  have l: "lower ''.a.io'' = ''.a.io''" "lower ''a.io'' = ''a.io''" "lower ''b.io'' = ''b.io''" "lower ''w.a.io'' = ''w.a.io''"
    by (simp_all add: lower_def lower_char_def)
  have e: "load_cookies_domain_safe ?d (Some ?cs) ?p = Reported 1 1"
    by (simp add: load_cookies_domain_safe_def cookie_step_def domain_match_def path_match_def
        req_path_def l endswith_def startswith_def)
  from load_cookies_counts [of ?d ?cs ?p]
  have "\<forall>a s. load_cookies_domain_safe ?d (Some ?cs) ?p = Reported a s \<longrightarrow> a + s = length ?cs"
    by (rule conjunct1)
  then have "load_cookies_domain_safe ?d (Some ?cs) ?p = Reported 1 1 \<longrightarrow> 1 + 1 = length ?cs"
    by blast
  with e show ?thesis by (rule_tac e)
qed

section \<open>Request diff: dictionaries\<close>



















text \<open>
  C8: for all capture sequences \<open>A\<close> and \<open>B\<close>, \<open>diff(A, B).added\<close> and \<open>diff(B, A).removed\<close>
  are the same set of records, and so are \<open>diff(A, B).removed\<close> and \<open>diff(B, A).added\<close>.
\<close>

theorem diff_requests_symmetry:
  "set (added (diff_requests h d a b)) = set (removed (diff_requests h d b a))
   \<and> set (removed (diff_requests h d a b)) = set (added (diff_requests h d b a))"
  by (simp add: diff_requests_def Let_def)

section \<open>Fingerprint pipeline\<close>

lemma on_simps:
  "on Map.empty k' = False"
  "on (e(k \<mapsto> v)) k' = (if k' = k then v = ''1'' else on e k')"
  by (auto simp add: on_def env_def)

lemma touch_fns:
  "getParameter (touch pg s) = getParameter pg"
  "toDataURL (touch pg s) = toDataURL pg"
  "getChannelData (touch pg s) = getChannelData pg"
  by (cases s; simp split: option.splits)+

lemma foldl_touch_fns:
  "getParameter (foldl touch pg ss) = getParameter pg"
  "toDataURL (foldl touch pg ss) = toDataURL pg"
  "getChannelData (foldl touch pg ss) = getChannelData pg"
  by (induction ss arbitrary: pg) (simp_all add: touch_fns)

lemma touch_none: "fp_used pg = None \<Longrightarrow> fp_used (touch pg s) = None"
  by (cases s) simp_all

lemma foldl_touch_none: "fp_used pg = None \<Longrightarrow> fp_used (foldl touch pg ss) = None"
  by (induction ss arbitrary: pg) (simp_all add: touch_none)

lemma touch_flags:
  assumes "fp_used pg = Some u"
  shows "\<exists>u'. fp_used (touch pg s) = Some u' \<and>
           (webgl u' \<longleftrightarrow> webgl u \<or> (s = Webgl \<and> runs_probe (getParameter pg))) \<and>
           (canvas u' \<longleftrightarrow> canvas u \<or> (s = Canvas \<and> runs_probe (toDataURL pg))) \<and>
           (audio u' \<longleftrightarrow> audio u \<or> (s = Audio \<and> runs_probe (getChannelData pg)))"
  using assms by (cases s) auto

lemma foldl_touch_flags:
  assumes "fp_used pg = Some u"
  shows "\<exists>u'. fp_used (foldl touch pg ss) = Some u' \<and>
           (webgl u' \<longleftrightarrow> webgl u \<or> (Webgl \<in> set ss \<and> runs_probe (getParameter pg))) \<and>
           (canvas u' \<longleftrightarrow> canvas u \<or> (Canvas \<in> set ss \<and> runs_probe (toDataURL pg))) \<and>
           (audio u' \<longleftrightarrow> audio u \<or> (Audio \<in> set ss \<and> runs_probe (getChannelData pg)))"
  using assms
proof (induction ss arbitrary: pg u)
  case Nil
  then show ?case by simp
next
  case (Cons s ss)
  from touch_flags[OF Cons.prems, of s] obtain u1 where
    u1: "fp_used (touch pg s) = Some u1"
    and f: "webgl u1 \<longleftrightarrow> webgl u \<or> (s = Webgl \<and> runs_probe (getParameter pg))"
       "canvas u1 \<longleftrightarrow> canvas u \<or> (s = Canvas \<and> runs_probe (toDataURL pg))"
       "audio u1 \<longleftrightarrow> audio u \<or> (s = Audio \<and> runs_probe (getChannelData pg))"
    by blast
  from Cons.IH[OF u1] obtain u' where
    u': "fp_used (foldl touch (touch pg s) ss) = Some u'"
    and g: "webgl u' \<longleftrightarrow> webgl u1 \<or> (Webgl \<in> set ss \<and> runs_probe (getParameter (touch pg s)))"
       "canvas u' \<longleftrightarrow> canvas u1 \<or> (Canvas \<in> set ss \<and> runs_probe (toDataURL (touch pg s)))"
       "audio u' \<longleftrightarrow> audio u1 \<or> (Audio \<in> set ss \<and> runs_probe (getChannelData (touch pg s)))"
    by blast
  show ?case
    using u' f g by (auto simp add: touch_fns)
qed

lemma apply_fp_overrides_patched:
  "patched (getParameter (apply_fp_overrides e used pg)) =
     patched (getParameter pg) + (if used_get used webgl \<and> on e ''FP_WEBGL'' then 1 else 0)"
  "patched (toDataURL (apply_fp_overrides e used pg)) =
     patched (toDataURL pg) + (if used_get used canvas \<and> on e ''FP_CANVAS'' then 1 else 0)"
  "patched (getChannelData (apply_fp_overrides e used pg)) =
     patched (getChannelData pg) + (if used_get used audio \<and> on e ''FP_AUDIO'' then 1 else 0)"
  by (simp_all add: apply_fp_overrides_def Let_def)

text \<open>
  Installing the probes a second time changes nothing: the script returns at once when
  \<open>window.__fp_used\<close> is set.
\<close>

theorem inject_fp_detection_idempotent:
  "inject_fp_detection e (inject_fp_detection e pg) = inject_fp_detection e pg"
  by (simp add: inject_fp_detection_def split: option.splits)

text \<open>
  The pipeline of main.py on a fresh page: a surface is patched (once) exactly when the page
  touched it during the observation window and both the detection toggle and the
  surface's toggle are on; the report's flag of a surface is set exactly when the page
  touched it with detection on.
\<close>

theorem browser_login_fp_gated:
  "(case browser_login_fp e touched fresh_page of (used, pg) \<Rightarrow>
      (patched (getParameter pg) = (if Webgl \<in> set touched \<and> on e ''FP_DETECT'' \<and> on e ''FP_WEBGL'' then 1 else 0)) \<and>
      (patched (toDataURL pg) = (if Canvas \<in> set touched \<and> on e ''FP_DETECT'' \<and> on e ''FP_CANVAS'' then 1 else 0)) \<and>
      (patched (getChannelData pg) = (if Audio \<in> set touched \<and> on e ''FP_DETECT'' \<and> on e ''FP_AUDIO'' then 1 else 0)) \<and>
      (used_get used webgl \<longleftrightarrow> Webgl \<in> set touched \<and> on e ''FP_DETECT'') \<and>
      (used_get used canvas \<longleftrightarrow> Canvas \<in> set touched \<and> on e ''FP_DETECT'') \<and>
      (used_get used audio \<longleftrightarrow> Audio \<in> set touched \<and> on e ''FP_DETECT''))"
proof (cases "on e ''FP_DETECT''")
  case False
  then have i: "inject_fp_detection e fresh_page = fresh_page"
    by (simp add: inject_fp_detection_def)
  have n: "fp_used (foldl touch fresh_page touched) = None"
    by (rule foldl_touch_none) (simp add: fresh_page_def)
  show ?thesis
    using False
    by (simp add: browser_login_fp_def Let_def i n apply_fp_overrides_patched foldl_touch_fns
          used_get_def) (simp add: fresh_page_def)
next
  case True
  let ?pg1 = "inject_fp_detection e fresh_page"
  have u0: "fp_used ?pg1 = Some \<lparr>webgl = False, canvas = False, audio = False\<rparr>"
    and fns: "getParameter ?pg1 = Probe Native" "toDataURL ?pg1 = Probe Native"
             "getChannelData ?pg1 = Probe Native"
    using True by (simp_all add: inject_fp_detection_def fresh_page_def)
  from foldl_touch_flags[OF u0, of touched] obtain u' where
    u': "fp_used (foldl touch ?pg1 touched) = Some u'"
    and f: "webgl u' \<longleftrightarrow> Webgl \<in> set touched" "canvas u' \<longleftrightarrow> Canvas \<in> set touched"
           "audio u' \<longleftrightarrow> Audio \<in> set touched"
    by (auto simp add: fns)
  show ?thesis
    using True
    by (simp add: browser_login_fp_def Let_def u' f apply_fp_overrides_patched foldl_touch_fns
          used_get_def fns)
qed

text \<open>
  C4: \<open>fingerprint_init_script\<close> (uncompletedbest.py) appends the WebGL patch whenever
  \<open>FP_WEBGL\<close> is on, before any page script has run. With \<open>FP_WEBGL\<close> and \<open>FP_DETECT\<close>
  on and a page that touches nothing, the report says \<open>webgl = False\<close> and the patch is
  installed all the same.
\<close>

theorem init_script_patches_unobserved:
  "fingerprint_init_script (\<lambda>s. None) [''FP_WEBGL'' \<mapsto> ''1'', ''FP_DETECT'' \<mapsto> ''1'']
     = Inr [PatchWebgl ''None'' ''None'', Detect]
   \<and> foldl touch (run_init_script [PatchWebgl ''None'' ''None'', Detect] fresh_page) []
     = \<lparr>fp_used = Some \<lparr>webgl = False, canvas = False, audio = False\<rparr>,
        getParameter = Probe (Patch Native), toDataURL = Probe Native,
        getChannelData = Probe Native\<rparr>"
  by (simp add: fingerprint_init_script_def int_segment_def on_simps env_def fstr_def
        run_init_script_def fresh_page_def)


end
